theory Spec2Isabelle
  imports Complex_Main
begin

section \<open>Values shared by the worker and the dialog\<close>

text \<open>
  A BPM value is a Python float. The code only compares it with \<open>0\<close>, stores it and
  truncates it for display, so it is modelled as a real number. An exception instance
  carries its message: \<open>OSError\<close> is what \<open>except OSError\<close> catches, \<open>Exception\<close> any other
  instance of the class \<open>Exception\<close>; \<open>except Exception\<close> catches both.
\<close>

type_synonym bpm = real

datatype exn = Exception string | OSError string

text \<open>\<open>os.path.join\<close> with two arguments, as \<open>posixpath\<close> defines it.\<close>

definition os_path_join :: "string \<Rightarrow> string \<Rightarrow> string" where
  "os_path_join a b =
     (if take 1 b = ''/'' then b
      else if a = [] \<or> last a = CHR ''/'' then a @ b
      else a @ ''/'' @ b)"

text \<open>
  The audio analyzer is an external collaborator: \<open>analyze_file\<close> returns the BPM and a
  second component that the worker discards, \<open>get_full_track_beat_positions_ms\<close> the beat
  positions. Either call may raise.
\<close>

record AudioAnalyzer =
  analyze_file :: "string \<Rightarrow> exn + (bpm \<times> int list)"
  get_full_track_beat_positions_ms :: "string \<Rightarrow> exn + int list"

section \<open>BPMAnalyzerThread\<close>

text \<open>The two signals of the thread, and the lines it prints.\<close>

datatype signal = Bpm_analyzed string bpm | Analysis_completed

datatype log_line =
    Pre_cached string nat
  | Beat_analysis_failed string exn
  | Analysis_error string exn

datatype effect = Emit signal | Print log_line

record BPMAnalyzerThread =
  t_audio_analyzer :: "AudioAnalyzer option"
  t_directory :: string
  file_list :: "string list"
  running :: bool

definition init_thread :: "AudioAnalyzer option \<Rightarrow> string \<Rightarrow> string list \<Rightarrow> BPMAnalyzerThread" where
  "init_thread an dir files =
     \<lparr>t_audio_analyzer = an, t_directory = dir, file_list = files, running = True\<rparr>"

definition stop :: "BPMAnalyzerThread \<Rightarrow> BPMAnalyzerThread" where
  "stop t = t\<lparr>running := False\<rparr>"

definition add_files :: "BPMAnalyzerThread \<Rightarrow> string list \<Rightarrow> BPMAnalyzerThread" where
  "add_files t new_files = t\<lparr>file_list := file_list t @ new_files\<rparr>"

text \<open>
  The statements inside the outer \<open>try\<close> of \<open>run\<close> for one file. The result is \<open>Inl e\<close>
  when an exception leaves the block, otherwise what the block printed and emitted. The
  inner \<open>try\<close> around the beat pre-caching has its own handler.
\<close>

definition try_block :: "AudioAnalyzer option \<Rightarrow> string \<Rightarrow> string \<Rightarrow> exn + effect list" where
  "try_block an dir file =
     (case an of
        None \<Rightarrow> Inr []
      | Some a \<Rightarrow>
          (let file_path = os_path_join dir file in
           case analyze_file a file_path of
             Inl e \<Rightarrow> Inl e
           | Inr (bpm, _) \<Rightarrow>
               if bpm > 0 then
                 (case get_full_track_beat_positions_ms a file_path of
                    Inr full_track_beats \<Rightarrow>
                      Inr [Print (Pre_cached file (length full_track_beats)),
                           Emit (Bpm_analyzed file bpm)]
                  | Inl beat_error \<Rightarrow>
                      Inr [Print (Beat_analysis_failed file beat_error),
                           Emit (Bpm_analyzed file bpm)])
               else Inr []))"

text \<open>One pass of the loop body after the \<open>running\<close> check: the block and its handler.\<close>

definition iteration :: "AudioAnalyzer option \<Rightarrow> string \<Rightarrow> string \<Rightarrow> effect list" where
  "iteration an dir file =
     (case try_block an dir file of
        Inl e \<Rightarrow> [Print (Analysis_error file e)]
      | Inr outs \<Rightarrow> outs)"

text \<open>
  The control thread calls \<open>stop\<close> and \<open>add_files\<close> on the job while the worker runs. The
  worker reads \<open>running\<close> and the length of \<open>file_list\<close> only at the head of an iteration,
  so a schedule lists, for each head of the loop in turn, the calls that have landed since
  the previous one. Calls left in the schedule when the loop ends arrive too late.
\<close>

datatype action = Stop | Add_files "string list"

fun deliver :: "action \<Rightarrow> BPMAnalyzerThread \<Rightarrow> BPMAnalyzerThread" where
  "deliver Stop t = stop t"
| "deliver (Add_files new_files) t = add_files t new_files"

fun landed :: "action list list \<Rightarrow> action list" where
  "landed [] = []"
| "landed (acts # _) = acts"

fun added :: "action list \<Rightarrow> string list" where
  "added [] = []"
| "added (Stop # acts) = added acts"
| "added (Add_files new_files # acts) = new_files @ added acts"

definition appended :: "action list list \<Rightarrow> string list" where
  "appended sched = concat (map added sched)"

text \<open>
  The \<open>for\<close> loop of \<open>run\<close>: the list iterator keeps an index \<open>i\<close> and stops when the index
  reaches the current length of the list, so files appended in time are visited.
\<close>

function loop :: "BPMAnalyzerThread \<Rightarrow> nat \<Rightarrow> action list list \<Rightarrow> effect list
    \<Rightarrow> BPMAnalyzerThread \<times> effect list" where
  "loop t i sched out =
     (let t' = fold deliver (landed sched) t in
      if i < length (file_list t') then
        if \<not> running t' then (t', out)
        else loop t' (Suc i) (tl sched)
               (out @ iteration (t_audio_analyzer t') (t_directory t') (file_list t' ! i))
      else (t', out))"
  by pat_completeness auto
termination
proof (relation "measure (\<lambda>(t, i, sched, out). length (file_list t) + length (appended sched) - i)")
  show "wf (measure (\<lambda>(t, i, sched, out). length (file_list t) + length (appended sched) - i))"
    by simp
next
  fix t :: BPMAnalyzerThread and i :: nat and sched :: "action list list"
    and out :: "effect list" and t' :: BPMAnalyzerThread
  assume t': "t' = fold deliver (landed sched) t" and i: "i < length (file_list t')"
  have grow: "file_list (fold deliver acts u) = file_list u @ added acts" for acts u
    by (induction acts arbitrary: u rule: added.induct) (simp_all add: stop_def add_files_def)
  have "length (file_list t') + length (appended (tl sched))
      = length (file_list t) + length (appended sched)"
    unfolding t' by (cases sched) (simp_all add: grow appended_def)
  with i show "((t', Suc i, tl sched,
       out @ iteration (t_audio_analyzer t') (t_directory t') (file_list t' ! i)),
      (t, i, sched, out))
    \<in> measure (\<lambda>(t, i, sched, out). length (file_list t) + length (appended sched) - i)"
    by simp
qed

declare loop.simps [simp del]

text \<open>\<open>run\<close>: the loop, then the statement after it.\<close>

definition run :: "BPMAnalyzerThread \<Rightarrow> action list list \<Rightarrow> BPMAnalyzerThread \<times> effect list" where
  "run t sched =
     (case loop t 0 sched [] of (t', out) \<Rightarrow> (t', out @ [Emit Analysis_completed]))"

text \<open>The signals among the outputs, in order.\<close>

fun emitted :: "effect list \<Rightarrow> signal list" where
  "emitted [] = []"
| "emitted (Emit s # outs) = s # emitted outs"
| "emitted (Print _ # outs) = emitted outs"




section \<open>String helpers of the dialog\<close>

text \<open>\<open>str.lower\<close> on the ASCII letters, and \<open>str.endswith\<close>.\<close>

definition lower_char :: "char \<Rightarrow> char" where
  "lower_char c =
     (let n = (of_char c :: nat) in if 65 \<le> n \<and> n \<le> 90 then char_of (n + 32) else c)"

definition lower :: "string \<Rightarrow> string" where
  "lower s = map lower_char s"

definition endswith :: "string \<Rightarrow> string \<Rightarrow> bool" where
  "endswith s suffix = (length suffix \<le> length s \<and> drop (length s - length suffix) s = suffix)"

definition is_audio_file :: "string \<Rightarrow> bool" where
  "is_audio_file file =
     (endswith (lower file) ''.mp3'' \<or> endswith (lower file) ''.wav''
        \<or> endswith (lower file) ''.flac'')"

text \<open>\<open>os.path.basename\<close> and the first component of \<open>os.path.splitext\<close>, as in \<open>posixpath\<close>.\<close>

definition os_path_basename :: "string \<Rightarrow> string" where
  "os_path_basename p = rev (takeWhile (\<lambda>c. c \<noteq> CHR ''/'') (rev p))"

definition splitext_root :: "string \<Rightarrow> string" where
  "splitext_root p =
     (let name = os_path_basename p;
          ext = rev (takeWhile (\<lambda>c. c \<noteq> CHR ''.'') (rev name));
          before_dot = take (length name - length ext - 1) name
      in if CHR ''.'' \<in> set name \<and> list_ex (\<lambda>c. c \<noteq> CHR ''.'') before_dot
         then take (length p - length ext - 1) p
         else p)"

text \<open>Decimal digits of a natural number, and the substring test \<open>sub in s\<close>.\<close>

fun str_nat :: "nat \<Rightarrow> string" where
  "str_nat n =
     (if n < 10 then [char_of (48 + n)]
      else str_nat (n div 10) @ [char_of (48 + n mod 10)])"

declare str_nat.simps [simp del]

definition contains :: "string \<Rightarrow> string \<Rightarrow> bool" where
  "contains sub s = list_ex (\<lambda>i. take (length sub) (drop i s) = sub) [0..<Suc (length s)]"

section \<open>FileBrowserDialog\<close>

text \<open>
  The collaborators of the dialog: the persistent cache manager, whose \<open>get_bpm_data\<close>
  returns \<open>None\<close> or a tuple whose first component is the BPM or \<open>None\<close>, and the file
  system behind \<open>os.path.isdir\<close> and \<open>os.listdir\<close>.
\<close>

record AudioCacheManager =
  get_bpm_data :: "string \<Rightarrow> exn + (bpm option \<times> int list) option"

record filesystem =
  isdir :: "string \<Rightarrow> bool"
  listdir :: "string \<Rightarrow> exn + string list"

text \<open>A thread object: the Python fields and what \<open>QThread.isRunning\<close> returns.\<close>

record thread_obj =
  job :: BPMAnalyzerThread
  isRunning :: bool

text \<open>
  The dialog. \<open>track_items\<close> maps a file name to the text of its label, in insertion
  order; \<open>list_widget\<close> holds the file names of the rows; \<open>sent\<close> collects what the dialog's
  own \<open>bpm_analyzed\<close> signal has emitted. \<open>analyzer_thread\<close> is the thread object the dialog
  refers to and \<open>detached\<close> the thread objects it has referred to before. Window titles,
  style properties and the message box are not modelled.
\<close>

record FileBrowserDialog =
  directory :: "string option"
  audio_analyzer :: "AudioAnalyzer option"
  cache_manager :: "AudioCacheManager option"
  track_items :: "(string \<times> string) list"
  bpm_cache :: "string \<rightharpoonup> bpm"
  status_label :: string
  analyzer_thread :: "thread_obj option"
  list_widget :: "string list"
  detached :: "thread_obj list"
  sent :: "(string \<times> bpm) list"

text \<open>Assignment to a key of a Python dict: in place when the key exists, else at the end.\<close>

fun dict_set :: "'k \<Rightarrow> 'v \<Rightarrow> ('k \<times> 'v) list \<Rightarrow> ('k \<times> 'v) list" where
  "dict_set k v [] = [(k, v)]"
| "dict_set k v ((k', v') # kvs) =
     (if k' = k then (k, v) # kvs else (k', v') # dict_set k v kvs)"

definition get_cached_bpm :: "FileBrowserDialog \<Rightarrow> string \<Rightarrow> bpm" where
  "get_cached_bpm s file_path = (case bpm_cache s file_path of None \<Rightarrow> 0 | Some b \<Rightarrow> b)"

definition analysis_completed :: "FileBrowserDialog \<Rightarrow> FileBrowserDialog" where
  "analysis_completed s = s\<lparr>status_label := ''Analysis complete!''\<rparr>"

text \<open>
  \<open>add_track_to_list\<close>: a new row and a new entry of \<open>track_items\<close>. \<open>os.path.join\<close> raises
  \<open>TypeError\<close> when the directory is \<open>None\<close>. \<open>int(bpm)\<close> is taken only of a positive value.
\<close>

definition add_track_to_list :: "FileBrowserDialog \<Rightarrow> string \<Rightarrow> bpm \<Rightarrow> exn + FileBrowserDialog" where
  "add_track_to_list s file b =
     (let base_name = splitext_root (os_path_basename file);
          display_name =
            (if b > 0 then base_name @ '' ('' @ str_nat (nat \<lfloor>b\<rfloor>) @ '' BPM)'' else base_name)
      in case directory s of
           None \<Rightarrow> Inl (Exception ''TypeError'')
         | Some dir \<Rightarrow>
             Inr (s\<lparr>list_widget := list_widget s @ [file],
                    track_items := dict_set file display_name (track_items s)\<rparr>))"

text \<open>\<open>update_track_bpm\<close>, the slot connected to the thread's \<open>bpm_analyzed\<close>.\<close>

definition update_track_bpm :: "FileBrowserDialog \<Rightarrow> string \<Rightarrow> bpm \<Rightarrow> exn + FileBrowserDialog" where
  "update_track_bpm s file b =
     (if file \<in> set (map fst (track_items s)) \<and> b > 0 then
        (case directory s of
           None \<Rightarrow> Inl (Exception ''TypeError'')
         | Some dir \<Rightarrow>
             (let full_path = os_path_join dir file;
                  display_name = splitext_root file @ '' ('' @ str_nat (nat \<lfloor>b\<rfloor>) @ '' BPM)'';
                  items = dict_set file display_name (track_items s);
                  analyzed_count = length (filter (\<lambda>(_, text). contains ''BPM'' text) items);
                  total_count = length items;
                  remaining = total_count - analyzed_count
              in Inr (s\<lparr>bpm_cache := (bpm_cache s)(full_path \<mapsto> b),
                        track_items := items,
                        status_label :=
                          (if remaining > 0
                           then ''Analyzing BPM: '' @ str_nat analyzed_count @ '' done, ''
                                  @ str_nat remaining @ '' remaining...''
                           else ''All '' @ str_nat total_count @ '' tracks analyzed!''),
                        sent := sent s @ [(full_path, b)]\<rparr>)))
      else Inr s)"

text \<open>
  The body of the loop over the audio files in \<open>populate_file_list\<close>, in three parts: the
  persistent cache with its promotion into \<open>bpm_cache\<close>, the in-memory cache, the new row.
\<close>

definition check_persistent ::
    "FileBrowserDialog \<Rightarrow> string \<Rightarrow> nat \<Rightarrow> exn + (bpm \<times> FileBrowserDialog \<times> nat)" where
  "check_persistent s full_path cached_from_persistent =
     (case cache_manager s of
        None \<Rightarrow> Inr (0, s, cached_from_persistent)
      | Some cm \<Rightarrow>
          (case get_bpm_data cm full_path of
             Inl e \<Rightarrow> Inl e
           | Inr None \<Rightarrow> Inr (0, s, cached_from_persistent)
           | Inr (Some (None, _)) \<Rightarrow> Inr (0, s, cached_from_persistent)
           | Inr (Some (Some cached_bpm, _)) \<Rightarrow>
               Inr (cached_bpm, s\<lparr>bpm_cache := (bpm_cache s)(full_path \<mapsto> cached_bpm)\<rparr>,
                    Suc cached_from_persistent)))"

definition check_memory :: "FileBrowserDialog \<Rightarrow> string \<Rightarrow> bpm \<Rightarrow> nat \<Rightarrow> bpm \<times> nat" where
  "check_memory s full_path cached_bpm cached_from_memory =
     (if cached_bpm = 0 then
        (let cached_bpm' = get_cached_bpm s full_path
         in (cached_bpm', if cached_bpm' > 0 then Suc cached_from_memory else cached_from_memory))
      else (cached_bpm, cached_from_memory))"

fun scan_files :: "string \<Rightarrow> string list \<Rightarrow> FileBrowserDialog \<times> string list \<times> nat \<times> nat
    \<Rightarrow> exn + (FileBrowserDialog \<times> string list \<times> nat \<times> nat)" where
  "scan_files dir [] acc = Inr acc"
| "scan_files dir (file # audio_files)
      (s, files_to_analyze, cached_from_persistent, cached_from_memory) =
     (let full_path = os_path_join dir file in
      case check_persistent s full_path cached_from_persistent of
        Inl e \<Rightarrow> Inl e
      | Inr (cached_bpm, s1, cached_from_persistent') \<Rightarrow>
          (case check_memory s1 full_path cached_bpm cached_from_memory of
             (cached_bpm', cached_from_memory') \<Rightarrow>
               if cached_bpm' > 0 then
                 (case add_track_to_list s1 file cached_bpm' of
                    Inl e \<Rightarrow> Inl e
                  | Inr s2 \<Rightarrow>
                      scan_files dir audio_files
                        (s2, files_to_analyze, cached_from_persistent', cached_from_memory'))
               else
                 (case add_track_to_list s1 file 0 of
                    Inl e \<Rightarrow> Inl e
                  | Inr s2 \<Rightarrow>
                      scan_files dir audio_files
                        (s2, files_to_analyze @ [file], cached_from_persistent',
                         cached_from_memory'))))"

text \<open>The status line after the scan, and the start of the analysis.\<close>

definition scan_status :: "nat \<Rightarrow> string list \<Rightarrow> string" where
  "scan_status cached_count files_to_analyze =
     (if cached_count > 0 then
        (if files_to_analyze \<noteq> []
         then str_nat cached_count @ '' tracks ready, analyzing ''
                @ str_nat (length files_to_analyze) @ '' more...''
         else ''All '' @ str_nat cached_count @ '' tracks ready!'')
      else ''Analyzing '' @ str_nat (length files_to_analyze) @ '' tracks...'')"

definition thread_is_running :: "FileBrowserDialog \<Rightarrow> bool" where
  "thread_is_running s = (case analyzer_thread s of None \<Rightarrow> False | Some th \<Rightarrow> isRunning th)"

definition start_analysis :: "FileBrowserDialog \<Rightarrow> string \<Rightarrow> string list \<Rightarrow> FileBrowserDialog" where
  "start_analysis s dir files_to_analyze =
     (if files_to_analyze \<noteq> [] \<and> audio_analyzer s \<noteq> None then
        (case analyzer_thread s of
           None \<Rightarrow>
             s\<lparr>analyzer_thread :=
                 Some \<lparr>job = init_thread (audio_analyzer s) dir files_to_analyze,
                       isRunning = True\<rparr>\<rparr>
         | Some th \<Rightarrow>
             if \<not> isRunning th then
               s\<lparr>analyzer_thread :=
                   Some \<lparr>job = init_thread (audio_analyzer s) dir files_to_analyze,
                         isRunning = True\<rparr>,
                 detached := detached s @ [th]\<rparr>
             else
               s\<lparr>analyzer_thread := Some (th\<lparr>job := add_files (job th) files_to_analyze\<rparr>)\<rparr>)
      else analysis_completed s)"

definition valid_directory :: "filesystem \<Rightarrow> string option \<Rightarrow> bool" where
  "valid_directory fs d = (case d of None \<Rightarrow> False | Some dir \<Rightarrow> dir \<noteq> [] \<and> isdir fs dir)"

definition populate_file_list :: "filesystem \<Rightarrow> FileBrowserDialog \<Rightarrow> exn + FileBrowserDialog" where
  "populate_file_list fs s0 =
     (let s = s0\<lparr>list_widget := [], track_items := []\<rparr> in
      if \<not> valid_directory fs (directory s) then
        Inr (s\<lparr>status_label := ''No valid directory selected.''\<rparr>)
      else
        (let dir = the (directory s) in
         case listdir fs dir of
           Inl (OSError e) \<Rightarrow> Inr (s\<lparr>status_label := ''Error accessing directory: '' @ e\<rparr>)
         | Inl (Exception e) \<Rightarrow> Inl (Exception e)
         | Inr names \<Rightarrow>
             (let audio_files = filter is_audio_file names in
              if audio_files = [] then
                Inr (s\<lparr>status_label := ''No compatible audio tracks found.''\<rparr>)
              else
                (case scan_files dir audio_files (s, [], 0, 0) of
                   Inl e \<Rightarrow> Inl e
                 | Inr (s1, files_to_analyze, cached_from_persistent, cached_from_memory) \<Rightarrow>
                     (let cached_count = cached_from_persistent + cached_from_memory;
                          s2 = s1\<lparr>status_label := scan_status cached_count files_to_analyze\<rparr>
                      in Inr (start_analysis s2 dir files_to_analyze))))))"

text \<open>\<open>__init__\<close>, \<open>set_directory\<close> and \<open>closeEvent\<close>. \<open>wait\<close> returns when the thread has ended.\<close>

definition init_dialog :: "filesystem \<Rightarrow> string option \<Rightarrow> AudioAnalyzer option
    \<Rightarrow> AudioCacheManager option \<Rightarrow> exn + FileBrowserDialog" where
  "init_dialog fs dir an cm =
     (let s = \<lparr>directory = dir, audio_analyzer = an, cache_manager = cm, track_items = [],
               bpm_cache = Map.empty, status_label = ''Select an audio directory first.'',
               analyzer_thread = None, list_widget = [], detached = [], sent = []\<rparr>
      in if valid_directory fs dir then populate_file_list fs s else Inr s)"

definition set_directory :: "filesystem \<Rightarrow> FileBrowserDialog \<Rightarrow> string option
    \<Rightarrow> exn + FileBrowserDialog" where
  "set_directory fs s0 dir =
     (let s = s0\<lparr>directory := dir\<rparr> in
      if valid_directory fs (directory s) then populate_file_list fs s
      else Inr (s\<lparr>list_widget := [], status_label := ''Invalid directory selected.'',
                  directory := None\<rparr>))"

definition closeEvent :: "FileBrowserDialog \<Rightarrow> FileBrowserDialog" where
  "closeEvent s =
     (case analyzer_thread s of
        None \<Rightarrow> s
      | Some th \<Rightarrow>
          if isRunning th
          then s\<lparr>analyzer_thread := Some \<lparr>job = stop (job th), isRunning = False\<rparr>\<rparr>
          else s)"

text \<open>
  The states a dialog can be in: \<open>__init__\<close> followed by any calls of its methods and slots,
  and by the end of the thread it refers to (\<open>run\<close> returning clears \<open>isRunning\<close>).
\<close>

inductive reachable :: "FileBrowserDialog \<Rightarrow> bool" where
  init: "init_dialog fs dir an cm = Inr s \<Longrightarrow> reachable s"
| set_dir: "reachable s \<Longrightarrow> set_directory fs s dir = Inr s' \<Longrightarrow> reachable s'"
| populate: "reachable s \<Longrightarrow> populate_file_list fs s = Inr s' \<Longrightarrow> reachable s'"
| update: "reachable s \<Longrightarrow> update_track_bpm s file b = Inr s' \<Longrightarrow> reachable s'"
| completed: "reachable s \<Longrightarrow> reachable (analysis_completed s)"
| close: "reachable s \<Longrightarrow> reachable (closeEvent s)"
| finished: "reachable s \<Longrightarrow> analyzer_thread s = Some th \<Longrightarrow>
     reachable (s\<lparr>analyzer_thread := Some (th\<lparr>isRunning := False\<rparr>)\<rparr>)"

text \<open>
  Whether the scan of \<open>populate_file_list\<close> puts a file on \<open>files_to_analyze\<close>: a BPM from the
  persistent cache decides when there is one, otherwise the value in \<open>bpm_cache\<close>.
\<close>

definition needs_analysis :: "FileBrowserDialog \<Rightarrow> string \<Rightarrow> string \<Rightarrow> bool" where
  "needs_analysis s dir f =
     (let full_path = os_path_join dir f in
      case cache_manager s of
        None \<Rightarrow> \<not> get_cached_bpm s full_path > 0
      | Some cm \<Rightarrow>
          (case get_bpm_data cm full_path of
             Inr (Some (Some b, _)) \<Rightarrow> \<not> b > 0
           | _ \<Rightarrow> \<not> get_cached_bpm s full_path > 0))"

text \<open>No thread object the dialog has let go of is still running.\<close>

definition single_flight :: "FileBrowserDialog \<Rightarrow> bool" where
  "single_flight s = list_all (\<lambda>th. \<not> isRunning th) (detached s)"

text \<open>Every value in the in-memory cache is positive.\<close>

definition cache_positive :: "FileBrowserDialog \<Rightarrow> bool" where
  "cache_positive s = (\<forall>p b. bpm_cache s p = Some b \<longrightarrow> b > 0)"

section \<open>Example inputs\<close>

text \<open>
  An analyzer that finds no tempo in \<open>broken.mp3\<close>, fails on \<open>corrupt.mp3\<close>, cannot compute
  the beats of \<open>short.wav\<close> and returns 128 BPM otherwise, and a job on four files.
\<close>

definition demo_analyzer :: AudioAnalyzer where
  "demo_analyzer =
     \<lparr>analyze_file =
        (\<lambda>p. if p = ''/music/broken.mp3'' then Inr (0, [])
             else if p = ''/music/corrupt.mp3'' then Inl (Exception ''decode error'')
             else Inr (128, [0, 469])),
      get_full_track_beat_positions_ms =
        (\<lambda>p. if p = ''/music/short.wav'' then Inl (Exception ''too short'')
             else Inr [0, 469, 938])\<rparr>"

definition demo_thread :: BPMAnalyzerThread where
  "demo_thread =
     init_thread (Some demo_analyzer) ''/music''
       [''a.mp3'', ''broken.mp3'', ''corrupt.mp3'', ''short.wav'']"

text \<open>
  A file system with a readable directory, a second one and one whose listing fails, and
  the dialog opened on the first with the analyzer above and no cache manager.
\<close>

definition demo_fs :: filesystem where
  "demo_fs =
     \<lparr>isdir = (\<lambda>d. d = ''/music'' \<or> d = ''/other'' \<or> d = ''/locked''),
      listdir =
        (\<lambda>d. if d = ''/music'' then Inr [''a.mp3'', ''broken.mp3'', ''notes.txt'']
             else if d = ''/other'' then Inr [''b.WAV'']
             else Inl (OSError ''Permission denied''))\<rparr>"

definition demo_dialog :: FileBrowserDialog where
  "demo_dialog =
     \<lparr>directory = Some ''/music'', audio_analyzer = Some demo_analyzer, cache_manager = None,
      track_items = [(''a.mp3'', ''a''), (''broken.mp3'', ''broken'')],
      bpm_cache = Map.empty, status_label = ''Analyzing 2 tracks...'',
      analyzer_thread =
        Some \<lparr>job = init_thread (Some demo_analyzer) ''/music'' [''a.mp3'', ''broken.mp3''],
              isRunning = True\<rparr>,
      list_widget = [''a.mp3'', ''broken.mp3''], detached = [], sent = []\<rparr>"

text \<open>A cache manager that holds the value 0 for \<open>a.mp3\<close> and nothing else.\<close>

definition demo_cache_manager :: AudioCacheManager where
  "demo_cache_manager =
     \<lparr>get_bpm_data =
        (\<lambda>p. if p = ''/music/a.mp3'' then Inr (Some (Some 0, [])) else Inr None)\<rparr>"

text \<open>The dialog above after \<open>set_directory\<close> to the second directory.\<close>

definition demo_dialog_other :: FileBrowserDialog where
  "demo_dialog_other =
     demo_dialog
       \<lparr>directory := Some ''/other'',
        track_items := [(''b.WAV'', ''b'')],
        status_label := ''Analyzing 1 tracks...'',
        analyzer_thread :=
          Some \<lparr>job = \<lparr>t_audio_analyzer = Some demo_analyzer, t_directory = ''/music'',
                       file_list = [''a.mp3'', ''broken.mp3'', ''b.WAV''], running = True\<rparr>,
                isRunning = True\<rparr>,
        list_widget := [''b.WAV'']\<rparr>"

text \<open>The dialog opened on the first directory after the result for \<open>a.mp3\<close> has arrived.\<close>

definition demo_dialog_analysed :: FileBrowserDialog where
  "demo_dialog_analysed =
     (case update_track_bpm demo_dialog ''a.mp3'' 128 of Inr s \<Rightarrow> s | Inl e \<Rightarrow> demo_dialog)"

section \<open>The worker loop\<close>




lemma running_fold_deliver:
  "running (fold deliver acts t) = (running t \<and> Stop \<notin> set acts)"
  by (induction acts arbitrary: t rule: added.induct) (auto simp add: stop_def add_files_def)
















lemma snd_run: "snd (run t sched) = snd (loop t 0 sched []) @ [Emit Analysis_completed]"
  by (simp add: run_def split: prod.splits)

lemma fst_run: "fst (run t sched) = fst (loop t 0 sched [])"
  by (simp add: run_def split: prod.splits)



section \<open>Notifications of a job\<close>







text \<open>
  Once \<open>stop\<close> has landed the loop is left at the next head and emits nothing more, but \<open>run\<close>
  goes on to the statement after the loop.
\<close>

lemma loop_stopped: "\<not> running t \<Longrightarrow> snd (loop t i sched out) = out"
  by (subst loop.simps) (simp add: Let_def running_fold_deliver)

lemma loop_stop_at_head:
  "Stop \<in> set (landed sched) \<Longrightarrow> snd (loop t i sched out) = out"
  by (subst loop.simps) (simp add: Let_def running_fold_deliver)

lemma run_stop_at_head:
  "Stop \<in> set (landed sched) \<Longrightarrow> snd (run t sched) = [Emit Analysis_completed]"
  by (simp add: snd_run loop_stop_at_head)

text \<open>
  Claim C1 says that a job stopped while running emits no \<open>bpm_analyzed\<close> for the files
  left in its queue and no \<open>analysis_completed\<close>. Here a job on four files is stopped after
  its first file. The remaining files get no notification, but \<open>analysis_completed\<close> is
  emitted all the same: the statement after the loop runs also when the loop was left by
  \<open>break\<close>.
\<close>

theorem run_emits_completed_after_stop:
  "emitted (snd (run demo_thread [[], [Stop]])) =
     [Bpm_analyzed ''a.mp3'' 128, Analysis_completed]"
  by code_simp

section \<open>Files without a result\<close>











section \<open>Results arriving at the dialog\<close>

text \<open>
  Claim C10. A result for a file that is not a key of \<open>track_items\<close>, or whose BPM is not
  positive, is dropped: \<open>update_track_bpm\<close> returns the dialog as it was, so \<open>bpm_cache\<close>,
  the labels, the status line and the signals sent so far are all unchanged.
\<close>

theorem update_track_bpm_drops_result:
  assumes "file \<notin> set (map fst (track_items s)) \<or> \<not> b > 0"
  shows "update_track_bpm s file b = Inr s"
  using assms by (auto simp add: update_track_bpm_def)

theorem update_track_bpm_drops_result_witness:
  "''late.mp3'' \<notin> set (map fst (track_items demo_dialog))
   \<and> update_track_bpm demo_dialog ''late.mp3'' 120 = Inr demo_dialog
   \<and> \<not> (0::real) > 0
   \<and> update_track_bpm demo_dialog ''a.mp3'' 0 = Inr demo_dialog"
proof -
  have h: "''late.mp3'' \<notin> set (map fst (track_items demo_dialog))"
    by (simp add: demo_dialog_def)
  have k: "\<not> (0::real) > 0"
    by simp
  have 1: "update_track_bpm demo_dialog ''late.mp3'' 120 = Inr demo_dialog"
    using update_track_bpm_drops_result[of "''late.mp3''" demo_dialog 120] h by blast
  have 2: "update_track_bpm demo_dialog ''a.mp3'' 0 = Inr demo_dialog"
    using update_track_bpm_drops_result[of "''a.mp3''" demo_dialog 0] k by blast
  from h k 1 2 show ?thesis
    by blast
qed

text \<open>
  Claim C5, as stated, fails: a positive BPM reported for a file that is not in the track
  list is not stored, and the lookup afterwards still returns 0.
\<close>

theorem store_dropped_for_unlisted_file:
  "update_track_bpm demo_dialog ''late.mp3'' 120 = Inr demo_dialog
   \<and> get_cached_bpm demo_dialog (os_path_join ''/music'' ''late.mp3'') \<noteq> 120"
  by (simp add: update_track_bpm_def demo_dialog_def get_cached_bpm_def)

text \<open>
  Claim C5, amended. For a file that is a key of \<open>track_items\<close>, a positive BPM and a dialog
  whose directory is set, \<open>update_track_bpm\<close> returns normally and \<open>get_cached_bpm\<close> on the
  joined path then returns exactly that BPM, whatever the cache manager is.
\<close>

theorem update_track_bpm_then_lookup:
  assumes "file \<in> set (map fst (track_items s))" and "b > 0" and "directory s = Some dir"
  shows "map_sum id (\<lambda>s'. get_cached_bpm s' (os_path_join dir file)) (update_track_bpm s file b)
           = Inr b"
  using assms by (simp add: update_track_bpm_def get_cached_bpm_def Let_def)

theorem update_track_bpm_then_lookup_witness:
  "''a.mp3'' \<in> set (map fst (track_items demo_dialog)) \<and> (128.7::real) > 0
   \<and> directory demo_dialog = Some ''/music''
   \<and> map_sum id (\<lambda>s'. get_cached_bpm s' ''/music/a.mp3'') (update_track_bpm demo_dialog ''a.mp3'' 128.7)
       = Inr 128.7"
proof -
  have a: "''a.mp3'' \<in> set (map fst (track_items demo_dialog))"
    by (simp add: demo_dialog_def)
  have b: "(128.7::real) > 0"
    by simp
  have c: "directory demo_dialog = Some ''/music''"
    by (simp add: demo_dialog_def)
  have p: "os_path_join ''/music'' ''a.mp3'' = ''/music/a.mp3''"
    by (simp add: os_path_join_def)
  from update_track_bpm_then_lookup[OF a b c] a b c show ?thesis
    unfolding p by blast
qed

section \<open>A directory that cannot be listed\<close>

text \<open>
  Claim C9. When \<open>os.listdir\<close> raises \<open>OSError\<close> for the dialog's directory,
  \<open>populate_file_list\<close> returns normally: the list and the track items are empty, the status
  line carries the error, and the thread objects are untouched, so no analysis is started.
  The same holds when the directory is set through \<open>set_directory\<close>.
\<close>

theorem populate_reports_listing_error:
  assumes "dir \<noteq> []" and "isdir fs dir" and "listdir fs dir = Inl (OSError msg)"
  shows "populate_file_list fs (s\<lparr>directory := Some dir\<rparr>) =
         Inr (s\<lparr>directory := Some dir, list_widget := [], track_items := [],
                status_label := ''Error accessing directory: '' @ msg\<rparr>)
    \<and> set_directory fs s (Some dir) =
         Inr (s\<lparr>directory := Some dir, list_widget := [], track_items := [],
                status_label := ''Error accessing directory: '' @ msg\<rparr>)"
  using assms by (simp add: populate_file_list_def set_directory_def valid_directory_def Let_def)

theorem populate_reports_listing_error_witness:
  "''/locked'' \<noteq> [] \<and> isdir demo_fs ''/locked''
   \<and> listdir demo_fs ''/locked'' = Inl (OSError ''Permission denied'')
   \<and> populate_file_list demo_fs (demo_dialog\<lparr>directory := Some ''/locked''\<rparr>) =
       Inr (demo_dialog\<lparr>directory := Some ''/locked'', list_widget := [], track_items := [],
              status_label := ''Error accessing directory: Permission denied''\<rparr>)
   \<and> set_directory demo_fs demo_dialog (Some ''/locked'') =
       Inr (demo_dialog\<lparr>directory := Some ''/locked'', list_widget := [], track_items := [],
              status_label := ''Error accessing directory: Permission denied''\<rparr>)"
proof -
  have a: "''/locked'' \<noteq> []"
    by simp
  have b: "isdir demo_fs ''/locked''"
    by (simp add: demo_fs_def)
  have c: "listdir demo_fs ''/locked'' = Inl (OSError ''Permission denied'')"
    by (simp add: demo_fs_def)
  from populate_reports_listing_error[OF a b c, of demo_dialog] a b c show ?thesis
    by simp
qed

section \<open>One running job per dialog\<close>

lemma add_track_to_list_frame:
  assumes "add_track_to_list s file b = Inr s'"
  shows "analyzer_thread s' = analyzer_thread s \<and> detached s' = detached s
    \<and> audio_analyzer s' = audio_analyzer s \<and> cache_manager s' = cache_manager s
    \<and> directory s' = directory s \<and> bpm_cache s' = bpm_cache s"
  using assms by (auto simp add: add_track_to_list_def Let_def split: option.splits)

lemma check_persistent_frame:
  assumes "check_persistent s p n = Inr (b, s', n')"
  shows "analyzer_thread s' = analyzer_thread s \<and> detached s' = detached s
    \<and> audio_analyzer s' = audio_analyzer s \<and> cache_manager s' = cache_manager s
    \<and> directory s' = directory s"
  using assms by (auto simp add: check_persistent_def split: option.splits sum.splits)

lemma scan_files_frame:
  assumes "scan_files dir files (s, todo, cp, cm) = Inr (s', todo', cp', cm')"
  shows "analyzer_thread s' = analyzer_thread s \<and> detached s' = detached s
    \<and> audio_analyzer s' = audio_analyzer s \<and> cache_manager s' = cache_manager s
    \<and> directory s' = directory s"
  using assms
proof (induction files arbitrary: s todo cp cm)
  case Nil
  then show ?case by simp
next
  case (Cons f files)
  from Cons.prems obtain b s1 cp1 where p: "check_persistent s (os_path_join dir f) cp = Inr (b, s1, cp1)"
    by (auto simp add: Let_def split: sum.splits)
  obtain b2 cm2 where m: "check_memory s1 (os_path_join dir f) b cm = (b2, cm2)"
    by (cases "check_memory s1 (os_path_join dir f) b cm")
  from Cons.prems p m obtain s2 todo2 where
    a: "add_track_to_list s1 f (if b2 > 0 then b2 else 0) = Inr s2"
    and r: "scan_files dir files (s2, todo2, cp1, cm2) = Inr (s', todo', cp', cm')"
    by (auto simp add: Let_def split: sum.splits if_splits)
  from Cons.IH[OF r] add_track_to_list_frame[OF a] check_persistent_frame[OF p]
  show ?case by simp
qed

lemma start_analysis_single_flight:
  "single_flight s \<Longrightarrow> single_flight (start_analysis s dir files)"
  by (auto simp add: start_analysis_def single_flight_def analysis_completed_def
      split: option.splits)

lemma start_analysis_running:
  assumes "analyzer_thread s = Some th" and "isRunning th"
  shows "detached (start_analysis s dir files) = detached s
    \<and> (\<exists>new_files. analyzer_thread (start_analysis s dir files)
          = Some (th\<lparr>job := add_files (job th) new_files\<rparr>))"
proof (cases "files \<noteq> [] \<and> audio_analyzer s \<noteq> None")
  case True
  then show ?thesis
    using assms by (auto simp add: start_analysis_def)
next
  case False
  have "th\<lparr>job := add_files (job th) []\<rparr> = th"
    by (simp add: add_files_def)
  then have "\<exists>new_files. Some th = Some (th\<lparr>job := add_files (job th) new_files\<rparr>)"
    by metis
  with False show ?thesis
    using assms by (auto simp add: start_analysis_def analysis_completed_def)
qed

lemma populate_single_flight:
  assumes "populate_file_list fs s = Inr s'" and "single_flight s"
  shows "single_flight s'"
proof -
  let ?s0 = "s\<lparr>list_widget := [], track_items := []\<rparr>"
  have sf0: "single_flight (?s0\<lparr>status_label := msg\<rparr>)" for msg
    using assms(2) by (simp add: single_flight_def)
  show ?thesis
  proof (cases "valid_directory fs (directory s)")
    case False
    with assms(1) sf0 show ?thesis
      by (auto simp add: populate_file_list_def Let_def)
  next
    case True
    show ?thesis
    proof (cases "listdir fs (the (directory s))")
      case (Inl e)
      with assms(1) True sf0 show ?thesis
        by (cases e) (auto simp add: populate_file_list_def Let_def)
    next
      case (Inr names)
      show ?thesis
      proof (cases "filter is_audio_file names = []")
        case True
        with assms(1) \<open>valid_directory fs (directory s)\<close> Inr sf0 show ?thesis
          by (auto simp add: populate_file_list_def Let_def)
      next
        case False
        with assms(1) \<open>valid_directory fs (directory s)\<close> Inr
        obtain s1 todo cp cm where
          sc: "scan_files (the (directory s)) (filter is_audio_file names) (?s0, [], 0, 0)
                 = Inr (s1, todo, cp, cm)"
          and res: "s' = start_analysis (s1\<lparr>status_label := scan_status (cp + cm) todo\<rparr>)
                      (the (directory s)) todo"
          by (auto simp add: populate_file_list_def Let_def split: sum.splits)
        from scan_files_frame[OF sc] assms(2)
        have "single_flight (s1\<lparr>status_label := scan_status (cp + cm) todo\<rparr>)"
          by (simp add: single_flight_def)
        then show ?thesis
          unfolding res by (rule start_analysis_single_flight)
      qed
    qed
  qed
qed

lemma populate_running:
  assumes "populate_file_list fs s = Inr s'" and "analyzer_thread s = Some th" and "isRunning th"
  shows "detached s' = detached s
    \<and> (\<exists>new_files. analyzer_thread s' = Some (th\<lparr>job := add_files (job th) new_files\<rparr>))"
proof -
  let ?s0 = "s\<lparr>list_widget := [], track_items := []\<rparr>"
  have same: "th\<lparr>job := add_files (job th) []\<rparr> = th"
    by (simp add: add_files_def)
  have keep: "detached (?s0\<lparr>status_label := msg\<rparr>) = detached s
    \<and> (\<exists>new_files. analyzer_thread (?s0\<lparr>status_label := msg\<rparr>)
          = Some (th\<lparr>job := add_files (job th) new_files\<rparr>))" for msg
    using assms(2) same by (simp, metis)
  show ?thesis
  proof (cases "valid_directory fs (directory s)")
    case False
    with assms(1) keep show ?thesis
      by (auto simp add: populate_file_list_def Let_def)
  next
    case True
    show ?thesis
    proof (cases "listdir fs (the (directory s))")
      case (Inl e)
      with assms(1) True keep show ?thesis
        by (cases e) (auto simp add: populate_file_list_def Let_def)
    next
      case (Inr names)
      show ?thesis
      proof (cases "filter is_audio_file names = []")
        case True
        with assms(1) \<open>valid_directory fs (directory s)\<close> Inr keep show ?thesis
          by (auto simp add: populate_file_list_def Let_def)
      next
        case False
        with assms(1) \<open>valid_directory fs (directory s)\<close> Inr
        obtain s1 todo cp cm where
          sc: "scan_files (the (directory s)) (filter is_audio_file names) (?s0, [], 0, 0)
                 = Inr (s1, todo, cp, cm)"
          and res: "s' = start_analysis (s1\<lparr>status_label := scan_status (cp + cm) todo\<rparr>)
                      (the (directory s)) todo"
          by (auto simp add: populate_file_list_def Let_def split: sum.splits)
        from scan_files_frame[OF sc] assms(2)
        have "analyzer_thread (s1\<lparr>status_label := scan_status (cp + cm) todo\<rparr>) = Some th"
          and "detached (s1\<lparr>status_label := scan_status (cp + cm) todo\<rparr>) = detached s"
          by simp_all
        with start_analysis_running[OF _ assms(3), of "s1\<lparr>status_label := scan_status (cp + cm) todo\<rparr>"]
        show ?thesis
          unfolding res by simp
      qed
    qed
  qed
qed

lemma set_directory_single_flight:
  assumes "set_directory fs s dir = Inr s'" and "single_flight s"
  shows "single_flight s'"
proof (cases "valid_directory fs dir")
  case True
  with assms(1) have "populate_file_list fs (s\<lparr>directory := dir\<rparr>) = Inr s'"
    by (simp add: set_directory_def Let_def)
  from populate_single_flight[OF this] assms(2) show ?thesis
    by (simp add: single_flight_def)
next
  case False
  with assms show ?thesis
    by (auto simp add: set_directory_def Let_def single_flight_def)
qed

lemma set_directory_running:
  assumes "set_directory fs s dir = Inr s'" and "analyzer_thread s = Some th" and "isRunning th"
  shows "detached s' = detached s
    \<and> (\<exists>new_files. analyzer_thread s' = Some (th\<lparr>job := add_files (job th) new_files\<rparr>))"
proof (cases "valid_directory fs dir")
  case True
  with assms(1) have "populate_file_list fs (s\<lparr>directory := dir\<rparr>) = Inr s'"
    by (simp add: set_directory_def Let_def)
  from populate_running[OF this, of th] assms(2,3) show ?thesis
    by simp
next
  case False
  have "th\<lparr>job := add_files (job th) []\<rparr> = th"
    by (simp add: add_files_def)
  then have "\<exists>new_files. Some th = Some (th\<lparr>job := add_files (job th) new_files\<rparr>)"
    by metis
  with False assms show ?thesis
    by (auto simp add: set_directory_def Let_def)
qed

lemma reachable_single_flight: "reachable s \<Longrightarrow> single_flight s"
proof (induction rule: reachable.induct)
  case (init fs dir an cm s)
  let ?s0 = "\<lparr>directory = dir, audio_analyzer = an, cache_manager = cm, track_items = [],
               bpm_cache = Map.empty, status_label = ''Select an audio directory first.'',
               analyzer_thread = None, list_widget = [], detached = [], sent = []\<rparr>"
  have sf: "single_flight ?s0"
    by (simp add: single_flight_def)
  show ?case
  proof (cases "valid_directory fs dir")
    case True
    with init have "populate_file_list fs ?s0 = Inr s"
      by (simp add: init_dialog_def Let_def)
    from populate_single_flight[OF this sf] show ?thesis .
  next
    case False
    with init have "s = ?s0"
      by (simp add: init_dialog_def Let_def)
    with sf show ?thesis
      by simp
  qed
next
  case (set_dir s fs dir s')
  then show ?case by (simp add: set_directory_single_flight)
next
  case (populate s fs s')
  then show ?case by (simp add: populate_single_flight)
next
  case (update s f b s')
  then show ?case
    by (auto simp add: update_track_bpm_def single_flight_def Let_def
        split: if_splits option.splits)
next
  case (completed s)
  then show ?case by (simp add: analysis_completed_def single_flight_def)
next
  case (close s)
  then show ?case by (simp add: closeEvent_def single_flight_def split: option.splits)
next
  case (finished s th)
  then show ?case by (simp add: single_flight_def)
qed

lemma needs_analysis_cong:
  "cache_manager s' = cache_manager s \<Longrightarrow> bpm_cache s' = bpm_cache s \<Longrightarrow>
   needs_analysis s' dir g = needs_analysis s dir g"
  by (auto simp add: needs_analysis_def get_cached_bpm_def Let_def
      split: option.splits sum.splits prod.splits)

lemma check_persistent_needs:
  assumes "check_persistent s p n = Inr (b, s1, n')"
  shows "needs_analysis s1 dir g = needs_analysis s dir g"
  using assms
  by (auto simp add: check_persistent_def needs_analysis_def get_cached_bpm_def Let_def
      split: option.splits sum.splits prod.splits if_splits)

lemma scan_step_needs:
  assumes "check_persistent s (os_path_join dir f) n = Inr (b, s1, n')"
    and "check_memory s1 (os_path_join dir f) b m = (b2, m')"
  shows "(b2 > 0) = (\<not> needs_analysis s dir f)"
  using assms
  by (auto simp add: check_persistent_def check_memory_def needs_analysis_def get_cached_bpm_def
      Let_def split: option.splits sum.splits prod.splits if_splits)

lemma scan_files_todo:
  assumes "scan_files dir files (s, todo, cp, cm) = Inr (s', todo', cp', cm')"
  shows "todo' = todo @ filter (needs_analysis s dir) files"
  using assms
proof (induction files arbitrary: s todo cp cm)
  case Nil
  then show ?case by simp
next
  case (Cons f files)
  from Cons.prems obtain b s1 cp1 where
    p: "check_persistent s (os_path_join dir f) cp = Inr (b, s1, cp1)"
    by (auto simp add: Let_def split: sum.splits)
  obtain b2 cm2 where m: "check_memory s1 (os_path_join dir f) b cm = (b2, cm2)"
    by (cases "check_memory s1 (os_path_join dir f) b cm")
  from Cons.prems p m obtain s2 where
    a: "add_track_to_list s1 f (if b2 > 0 then b2 else 0) = Inr s2"
    and r: "scan_files dir files (s2, if b2 > 0 then todo else todo @ [f], cp1, cm2)
              = Inr (s', todo', cp', cm')"
    by (auto simp add: Let_def split: sum.splits if_splits)
  have "needs_analysis s2 dir g = needs_analysis s dir g" for g
    using needs_analysis_cong[of s2 s1 dir g] add_track_to_list_frame[OF a]
      check_persistent_needs[OF p, of dir g] by simp
  then have same: "needs_analysis s2 dir = needs_analysis s dir"
    by (rule ext)
  have "todo' = (if b2 > 0 then todo else todo @ [f]) @ filter (needs_analysis s2 dir) files"
    using Cons.IH[OF r] .
  then show ?case
    using scan_step_needs[OF p m] by (simp add: same)
qed

lemma add_files_Nil: "th\<lparr>job := add_files (job th) []\<rparr> = th"
  by (simp add: add_files_def)

lemma populate_running_appends:
  assumes "populate_file_list fs s = Inr s'"
    and "analyzer_thread s = Some th" and "isRunning th"
    and "directory s = Some d" and "valid_directory fs (Some d)"
    and "listdir fs d = Inr names" and "audio_analyzer s \<noteq> None"
  shows "analyzer_thread s' =
           Some (th\<lparr>job := add_files (job th)
                             (filter (needs_analysis s d) (filter is_audio_file names))\<rparr>)"
proof (cases "filter is_audio_file names = []")
  case True
  with assms show ?thesis
    by (auto simp add: populate_file_list_def Let_def add_files_Nil)
next
  case False
  let ?s0 = "s\<lparr>list_widget := [], track_items := []\<rparr>"
  from False assms(1,4,5,6)
  obtain s1 todo cp cm where
    sc: "scan_files d (filter is_audio_file names) (?s0, [], 0, 0) = Inr (s1, todo, cp, cm)"
    and res: "s' = start_analysis (s1\<lparr>status_label := scan_status (cp + cm) todo\<rparr>) d todo"
    by (auto simp add: populate_file_list_def Let_def split: sum.splits)
  have todo: "todo = filter (needs_analysis s d) (filter is_audio_file names)"
    using scan_files_todo[OF sc] needs_analysis_cong[of ?s0 s d] by simp
  have fr: "analyzer_thread s1 = Some th" "audio_analyzer s1 \<noteq> None"
    using scan_files_frame[OF sc] assms(2,7) by simp_all
  show ?thesis
  proof (cases "todo = []")
    case True
    then show ?thesis
      unfolding res todo[symmetric]
      using fr by (simp add: start_analysis_def analysis_completed_def add_files_Nil)
  next
    case False
    then show ?thesis
      unfolding res todo[symmetric]
      using fr assms(3) by (simp add: start_analysis_def)
  qed
qed

lemma set_directory_running_appends:
  assumes "set_directory fs s (Some d) = Inr s'"
    and "analyzer_thread s = Some th" and "isRunning th"
    and "valid_directory fs (Some d)"
    and "listdir fs d = Inr names" and "audio_analyzer s \<noteq> None"
  shows "analyzer_thread s' =
           Some (th\<lparr>job := add_files (job th)
                             (filter (needs_analysis s d) (filter is_audio_file names))\<rparr>)"
proof -
  from assms(1,4) have p: "populate_file_list fs (s\<lparr>directory := Some d\<rparr>) = Inr s'"
    by (simp add: set_directory_def Let_def)
  from populate_running_appends[OF p, of th d names] assms(2-6)
    needs_analysis_cong[of "s\<lparr>directory := Some d\<rparr>" s d]
  show ?thesis
    by simp
qed

lemma demo_dialog_opened:
  "init_dialog demo_fs (Some ''/music'') (Some demo_analyzer) None = Inr demo_dialog"
proof -
  have a: "is_audio_file ''a.mp3''" "is_audio_file ''broken.mp3''" "\<not> is_audio_file ''notes.txt''"
    by code_simp+
  have b: "splitext_root (os_path_basename ''a.mp3'') = ''a''"
    "splitext_root (os_path_basename ''broken.mp3'') = ''broken''"
    by code_simp+
  have c: "scan_status 0 [''a.mp3'', ''broken.mp3''] = ''Analyzing 2 tracks...''"
    by code_simp
  show ?thesis
    by (simp add: init_dialog_def demo_fs_def valid_directory_def populate_file_list_def a b c
        check_persistent_def check_memory_def get_cached_bpm_def add_track_to_list_def
        os_path_join_def start_analysis_def demo_dialog_def Let_def)
qed

lemma demo_dialog_reachable: "reachable demo_dialog"
  using demo_dialog_opened by (rule reachable.init)

lemma demo_dialog_redirected:
  "set_directory demo_fs demo_dialog (Some ''/other'') = Inr demo_dialog_other"
proof -
  have a: "is_audio_file ''b.WAV''"
    by code_simp
  have b: "splitext_root (os_path_basename ''b.WAV'') = ''b''"
    by code_simp
  have c: "scan_status 0 [''b.WAV''] = ''Analyzing 1 tracks...''"
    by code_simp
  show ?thesis
    by (simp add: set_directory_def demo_fs_def valid_directory_def populate_file_list_def a b c
        check_persistent_def check_memory_def get_cached_bpm_def add_track_to_list_def
        os_path_join_def start_analysis_def demo_dialog_def demo_dialog_other_def Let_def
        init_thread_def add_files_def)
qed

lemma demo_dialog_updated:
  "update_track_bpm demo_dialog ''a.mp3'' 128 = Inr demo_dialog_analysed"
  by (simp add: demo_dialog_analysed_def update_track_bpm_def demo_dialog_def Let_def)

lemma demo_dialog_analysed_reachable: "reachable demo_dialog_analysed"
  using demo_dialog_reachable demo_dialog_updated by (rule reachable.update)

lemma demo_dialog_analysed_thread:
  "analyzer_thread demo_dialog_analysed =
     Some \<lparr>job = init_thread (Some demo_analyzer) ''/music'' [''a.mp3'', ''broken.mp3''],
           isRunning = True\<rparr>"
  by (simp add: demo_dialog_analysed_def update_track_bpm_def demo_dialog_def Let_def)

lemma demo_dialog_analysed_relisted:
  "\<exists>s'. set_directory demo_fs demo_dialog_analysed (Some ''/music'') = Inr s'"
proof -
  have "case set_directory demo_fs demo_dialog_analysed (Some ''/music'') of
          Inl e \<Rightarrow> False | Inr s' \<Rightarrow> True"
    by code_simp
  then show ?thesis
    by (cases "set_directory demo_fs demo_dialog_analysed (Some ''/music'')") simp_all
qed

text \<open>
  Claim C3, as stated, fails. The dialog opened on \<open>/music\<close> has a running job. After
  \<open>set_directory\<close> to \<open>/other\<close> the same job is still the dialog's job, it is still running
  and its \<open>running\<close> flag is still set: it was neither cancelled nor joined. Its directory
  is still \<open>/music\<close>, although the name found in \<open>/other\<close> is now in its queue.
\<close>

theorem set_directory_keeps_running_job:
  "thread_is_running demo_dialog
   \<and> set_directory demo_fs demo_dialog (Some ''/other'') = Inr demo_dialog_other
   \<and> analyzer_thread demo_dialog_other =
       Some \<lparr>job = \<lparr>t_audio_analyzer = Some demo_analyzer, t_directory = ''/music'',
                    file_list = [''a.mp3'', ''broken.mp3'', ''b.WAV''], running = True\<rparr>,
             isRunning = True\<rparr>"
  by (simp add: demo_dialog_redirected) (simp add: thread_is_running_def demo_dialog_def demo_dialog_other_def)

text \<open>
  Claim C3, amended. In every reachable state of the dialog no thread object that the
  dialog has let go of is running, so at most one job, the dialog's own, is active.
  \<open>closeEvent\<close> leaves no job running, and a job that was running has been stopped and
  joined. \<open>set_directory\<close> on a dialog whose job is running creates no new job and does not
  stop or join the running one: the job stays the dialog's job, with its directory, its
  analyzer and its \<open>running\<close> flag as they were. When the directory set is the job's own, the
  analyzer is present and the listing succeeds, the queue of the job is extended by exactly
  the listed audio files for which neither cache gives a positive BPM.
\<close>

theorem running_job_is_reused:
  assumes "reachable s"
  shows "single_flight s
    \<and> single_flight (closeEvent s) \<and> \<not> thread_is_running (closeEvent s)
    \<and> (\<forall>th. analyzer_thread s = Some th \<and> isRunning th \<longrightarrow>
          analyzer_thread (closeEvent s) = Some \<lparr>job = stop (job th), isRunning = False\<rparr>)
    \<and> (\<forall>th. analyzer_thread s = Some th \<and> isRunning th \<and> set_directory fs s dir = Inr s' \<longrightarrow>
          single_flight s' \<and> detached s' = detached s
          \<and> (\<exists>new_files. analyzer_thread s' = Some (th\<lparr>job := add_files (job th) new_files\<rparr>))
          \<and> (\<forall>names. dir = Some (t_directory (job th)) \<and> valid_directory fs dir
                 \<and> listdir fs (t_directory (job th)) = Inr names \<and> audio_analyzer s \<noteq> None \<longrightarrow>
                analyzer_thread s' =
                  Some (th\<lparr>job := add_files (job th)
                          (filter (needs_analysis s (t_directory (job th)))
                             (filter is_audio_file names))\<rparr>)))"
proof -
  have sf: "single_flight s"
    using assms by (rule reachable_single_flight)
  have c1: "single_flight (closeEvent s)"
    using sf by (simp add: closeEvent_def single_flight_def split: option.splits)
  have c2: "\<not> thread_is_running (closeEvent s)"
    by (simp add: closeEvent_def thread_is_running_def split: option.splits)
  have c3: "analyzer_thread (closeEvent s) = Some \<lparr>job = stop (job th), isRunning = False\<rparr>"
    if "analyzer_thread s = Some th" and "isRunning th" for th
    using that by (simp add: closeEvent_def)
  have d: "single_flight s' \<and> detached s' = detached s
          \<and> (\<exists>new_files. analyzer_thread s' = Some (th\<lparr>job := add_files (job th) new_files\<rparr>))"
    if "analyzer_thread s = Some th" and "isRunning th" and "set_directory fs s dir = Inr s'" for th
    using set_directory_single_flight[OF that(3) sf] set_directory_running[OF that(3,1,2)]
    by simp
  have e: "analyzer_thread s' =
             Some (th\<lparr>job := add_files (job th)
                     (filter (needs_analysis s (t_directory (job th)))
                        (filter is_audio_file names))\<rparr>)"
    if "analyzer_thread s = Some th" and "isRunning th" and "set_directory fs s dir = Inr s'"
      and "dir = Some (t_directory (job th))" and "valid_directory fs dir"
      and "listdir fs (t_directory (job th)) = Inr names" and "audio_analyzer s \<noteq> None"
    for th names
    using set_directory_running_appends[of fs s "t_directory (job th)" s' th names] that
    by simp
  from sf c1 c2 c3 d e show ?thesis
    by blast
qed

theorem running_job_is_reused_witness:
  "reachable demo_dialog \<and> single_flight demo_dialog
   \<and> \<not> thread_is_running (closeEvent demo_dialog)
   \<and> analyzer_thread demo_dialog =
       Some \<lparr>job = init_thread (Some demo_analyzer) ''/music'' [''a.mp3'', ''broken.mp3''],
             isRunning = True\<rparr>
   \<and> analyzer_thread (closeEvent demo_dialog) =
       Some \<lparr>job = stop (init_thread (Some demo_analyzer) ''/music'' [''a.mp3'', ''broken.mp3'']),
             isRunning = False\<rparr>
   \<and> set_directory demo_fs demo_dialog (Some ''/other'') = Inr demo_dialog_other
   \<and> single_flight demo_dialog_other \<and> detached demo_dialog_other = detached demo_dialog
   \<and> reachable demo_dialog_analysed
   \<and> analyzer_thread demo_dialog_analysed =
       Some \<lparr>job = init_thread (Some demo_analyzer) ''/music'' [''a.mp3'', ''broken.mp3''],
             isRunning = True\<rparr>
   \<and> valid_directory demo_fs (Some ''/music'')
   \<and> listdir demo_fs ''/music'' = Inr [''a.mp3'', ''broken.mp3'', ''notes.txt'']
   \<and> audio_analyzer demo_dialog_analysed = Some demo_analyzer
   \<and> filter (needs_analysis demo_dialog_analysed ''/music'')
         (filter is_audio_file [''a.mp3'', ''broken.mp3'', ''notes.txt'']) = [''broken.mp3'']
   \<and> map_sum id analyzer_thread (set_directory demo_fs demo_dialog_analysed (Some ''/music'')) =
       Inr (Some \<lparr>job = add_files (init_thread (Some demo_analyzer) ''/music''
                                      [''a.mp3'', ''broken.mp3''])
                           [''broken.mp3''],
                  isRunning = True\<rparr>)"
proof -
  have r: "reachable demo_dialog"
    using demo_dialog_opened by (rule reachable.init)
  have t: "analyzer_thread demo_dialog =
       Some \<lparr>job = init_thread (Some demo_analyzer) ''/music'' [''a.mp3'', ''broken.mp3''],
             isRunning = True\<rparr>"
    by (simp add: demo_dialog_def)
  note th = running_job_is_reused[OF r, of demo_fs "Some ''/other''" demo_dialog_other]
  from th t demo_dialog_redirected
  have o: "single_flight demo_dialog_other \<and> detached demo_dialog_other = detached demo_dialog"
    by simp
  have v: "valid_directory demo_fs (Some ''/music'')"
    by (simp add: valid_directory_def demo_fs_def)
  have l: "listdir demo_fs ''/music'' = Inr [''a.mp3'', ''broken.mp3'', ''notes.txt'']"
    by (simp add: demo_fs_def)
  have an: "audio_analyzer demo_dialog_analysed = Some demo_analyzer"
    by (simp add: demo_dialog_analysed_def update_track_bpm_def demo_dialog_def Let_def)
  have f: "filter (needs_analysis demo_dialog_analysed ''/music'')
         (filter is_audio_file [''a.mp3'', ''broken.mp3'', ''notes.txt'']) = [''broken.mp3'']"
    by code_simp
  obtain s' where s': "set_directory demo_fs demo_dialog_analysed (Some ''/music'') = Inr s'"
    using demo_dialog_analysed_relisted by blast
  note th2 = running_job_is_reused[OF demo_dialog_analysed_reachable, of demo_fs "Some ''/music''" s']
  have "analyzer_thread s' =
      Some \<lparr>job = add_files (init_thread (Some demo_analyzer) ''/music'' [''a.mp3'', ''broken.mp3''])
                     (filter (needs_analysis demo_dialog_analysed ''/music'')
                        (filter is_audio_file [''a.mp3'', ''broken.mp3'', ''notes.txt''])),
            isRunning = True\<rparr>"
    using th2 demo_dialog_analysed_thread s' v l an by (simp add: init_thread_def)
  then have m: "map_sum id analyzer_thread
        (set_directory demo_fs demo_dialog_analysed (Some ''/music'')) =
       Inr (Some \<lparr>job = add_files (init_thread (Some demo_analyzer) ''/music''
                                      [''a.mp3'', ''broken.mp3''])
                           [''broken.mp3''],
                  isRunning = True\<rparr>)"
    unfolding f by (simp add: s')
  from th r t demo_dialog_redirected o demo_dialog_analysed_reachable
    demo_dialog_analysed_thread v l an f m
  show ?thesis
    by simp
qed

section \<open>Positive values in the in-memory cache\<close>

text \<open>
  Both writers of \<open>bpm_cache\<close> keep it positive provided the cache manager never returns a
  BPM that is not positive; \<open>populate_file_list\<close> itself does not check the promoted value.
\<close>

lemma update_track_bpm_cache_positive:
  assumes "update_track_bpm s f b = Inr s'" and "cache_positive s"
  shows "cache_positive s'"
  using assms
  by (auto simp add: update_track_bpm_def cache_positive_def Let_def
      split: if_splits option.splits)

lemma scan_files_cache_positive:
  assumes "scan_files dir files (s, todo, cp, cm) = Inr (s', todo', cp', cm')"
    and "cache_positive s"
    and "\<And>mgr p b aux. cache_manager s = Some mgr \<Longrightarrow>
           get_bpm_data mgr p = Inr (Some (Some b, aux)) \<Longrightarrow> b > 0"
  shows "cache_positive s'"
  using assms
proof (induction files arbitrary: s todo cp cm)
  case Nil
  then show ?case by simp
next
  case (Cons f files)
  from Cons.prems(1) obtain b s1 cp1 where
    p: "check_persistent s (os_path_join dir f) cp = Inr (b, s1, cp1)"
    by (auto simp add: Let_def split: sum.splits)
  obtain b2 cm2 where m: "check_memory s1 (os_path_join dir f) b cm = (b2, cm2)"
    by (cases "check_memory s1 (os_path_join dir f) b cm")
  from Cons.prems(1) p m obtain s2 todo2 where
    a: "add_track_to_list s1 f (if b2 > 0 then b2 else 0) = Inr s2"
    and r: "scan_files dir files (s2, todo2, cp1, cm2) = Inr (s', todo', cp', cm')"
    by (auto simp add: Let_def split: sum.splits if_splits)
  have pos1: "cache_positive s1"
    using p Cons.prems(2,3)
    by (auto simp add: check_persistent_def cache_positive_def
        split: option.splits sum.splits if_splits)
  have pos2: "cache_positive s2"
    using pos1 add_track_to_list_frame[OF a] by (simp add: cache_positive_def)
  have mgr2: "cache_manager s2 = cache_manager s"
    using add_track_to_list_frame[OF a] check_persistent_frame[OF p] by simp
  show ?case
    using Cons.IH[OF r pos2] Cons.prems(3) mgr2 by simp
qed

lemma populate_cache_positive:
  assumes "populate_file_list fs s = Inr s'"
    and "cache_positive s"
    and "\<And>mgr p b aux. cache_manager s = Some mgr \<Longrightarrow>
           get_bpm_data mgr p = Inr (Some (Some b, aux)) \<Longrightarrow> b > 0"
  shows "cache_positive s'"
proof -
  let ?s0 = "s\<lparr>list_widget := [], track_items := []\<rparr>"
  have pos0: "cache_positive (?s0\<lparr>status_label := msg\<rparr>)" for msg
    using assms(2) by (simp add: cache_positive_def)
  show ?thesis
  proof (cases "valid_directory fs (directory s)")
    case False
    with assms(1) pos0 show ?thesis
      by (auto simp add: populate_file_list_def Let_def)
  next
    case True
    show ?thesis
    proof (cases "listdir fs (the (directory s))")
      case (Inl e)
      with assms(1) True pos0 show ?thesis
        by (cases e) (auto simp add: populate_file_list_def Let_def)
    next
      case (Inr names)
      show ?thesis
      proof (cases "filter is_audio_file names = []")
        case True
        with assms(1) \<open>valid_directory fs (directory s)\<close> Inr pos0 show ?thesis
          by (auto simp add: populate_file_list_def Let_def)
      next
        case False
        with assms(1) \<open>valid_directory fs (directory s)\<close> Inr
        obtain s1 todo cp cm where
          sc: "scan_files (the (directory s)) (filter is_audio_file names) (?s0, [], 0, 0)
                 = Inr (s1, todo, cp, cm)"
          and res: "s' = start_analysis (s1\<lparr>status_label := scan_status (cp + cm) todo\<rparr>)
                      (the (directory s)) todo"
          by (auto simp add: populate_file_list_def Let_def split: sum.splits)
        have "cache_positive ?s0"
          using assms(2) by (simp add: cache_positive_def)
        from scan_files_cache_positive[OF sc this] assms(3)
        have "cache_positive s1"
          by simp
        then show ?thesis
          unfolding res
          by (auto simp add: start_analysis_def analysis_completed_def cache_positive_def
              split: option.splits)
      qed
    qed
  qed
qed

text \<open>
  Claim C4 says that every value in the in-memory cache is positive. Here the persistent
  cache holds the value 0 for \<open>a.mp3\<close>. Opening the dialog on the directory promotes it:
  \<open>bpm_cache\<close> then holds 0 for that path.
\<close>

theorem promotion_stores_sentinel:
  "map_sum id (\<lambda>s. bpm_cache s ''/music/a.mp3'')
     (init_dialog demo_fs (Some ''/music'') (Some demo_analyzer) (Some demo_cache_manager))
   = Inr (Some 0)"
  by code_simp

end
